theory Spec2Isabelle
  imports Main "HOL-Library.Word"
begin

section \<open>CIOUring: the handle wrapper around liburing\<close>

text \<open>
  \<^verbatim>\<open>Sources/CIOUring/CIOUring.c\<close> wraps five liburing calls behind a heap-allocated
  \<^verbatim>\<open>struct io_uring_handle { struct io_uring ring; }\<close>. The embedding keeps the C
  memory effects explicit: a heap of handle cells, a kernel state that the library
  calls read and write, and pointers that may be \<^verbatim>\<open>NULL\<close>.
\<close>

subsection \<open>Data model\<close>

type_synonym addr = nat

text \<open>A \<^verbatim>\<open>struct io_uring_handle*\<close>: \<open>None\<close> is \<^verbatim>\<open>NULL\<close>.\<close>

type_synonym handle_ptr = "addr option"

text \<open>\<^verbatim>\<open>struct io_uring_sqe*\<close> and \<^verbatim>\<open>struct io_uring_cqe*\<close>: \<open>None\<close> is \<^verbatim>\<open>NULL\<close>,
  \<open>Some i\<close> refers to entry \<open>i\<close> of the ring.\<close>

type_synonym sqe_ptr = "nat option"

type_synonym cqe_ptr = "nat option"

text \<open>\<^verbatim>\<open>struct io_uring_handle\<close> (CIOUring.h): its only member is the library's ring
  structure, whose type \<open>'r\<close> comes from \<^verbatim>\<open><liburing.h>\<close>.\<close>

record 'r io_uring_handle =
  ring :: 'r

text \<open>An allocated block of \<^verbatim>\<open>sizeof(struct io_uring_handle)\<close> bytes: fresh from
  \<^verbatim>\<open>malloc\<close> its contents are indeterminate, after \<^verbatim>\<open>io_uring_queue_init\<close> it holds a
  handle.\<close>

datatype 'r cell = Uninit | Init "'r io_uring_handle"

text \<open>The program state: the C heap (unallocated addresses map to \<open>None\<close>) and the
  state of the kernel, of type \<open>'k\<close>, behind the library.\<close>

record ('r, 'k) world =
  heap :: "addr \<rightharpoonup> 'r cell"
  kernel :: 'k

text \<open>What a call can do instead of returning: read or write through a pointer that is
  \<^verbatim>\<open>NULL\<close>, dangling or uninitialised, or hand \<^verbatim>\<open>free\<close> a pointer to no allocated block
  (both undefined behaviour in C), or block for ever.\<close>

datatype fault = InvalidHandle | InvalidFree | NeverReturns

text \<open>
  The functions CIOUring.c calls and does not define (\<^verbatim>\<open><stdlib.h>\<close>,
  \<^verbatim>\<open><liburing.h>\<close>), taken as parameters. A library call that receives
  \<^verbatim>\<open>&handle->ring\<close> gets the ring's contents and returns the contents it leaves
  there; \<^verbatim>\<open>io_uring_queue_init\<close> only writes the ring. \<^verbatim>\<open>unsigned\<close> arguments are
  32-bit words; the \<^verbatim>\<open>int\<close> results are only compared with zero and passed on.
  \<^verbatim>\<open>io_uring_submit_and_wait\<close> may block for ever: that is \<open>None\<close>.

  The ring is the first and only member of the handle, so \<^verbatim>\<open>&handle->ring\<close> is the
  handle's own address, whatever the handle is. When no initialised handle is behind
  it (the pointer is \<^verbatim>\<open>NULL\<close>, dangling, or the block is uninitialised) the library
  call still receives the pointer, and what happens is the library's affair: the
  \<open>stray\<close> functions say, for each call, whether it reads or writes through such a
  pointer (a fault) or returns without touching it, and with what result.
\<close>

record ('r, 'k) extern =
  malloc :: "(addr \<rightharpoonup> 'r cell) \<Rightarrow> addr option"
  io_uring_queue_init :: "32 word \<Rightarrow> 32 word \<Rightarrow> 'k \<Rightarrow> int \<times> 'r \<times> 'k"
  io_uring_queue_exit :: "'r \<Rightarrow> 'k \<Rightarrow> 'r \<times> 'k"
  io_uring_submit_and_wait :: "'r \<Rightarrow> 32 word \<Rightarrow> 'k \<Rightarrow> (int \<times> 'r \<times> 'k) option"
  io_uring_get_sqe :: "'r \<Rightarrow> 'k \<Rightarrow> sqe_ptr \<times> 'r \<times> 'k"
  io_uring_cqe_seen :: "'r \<Rightarrow> cqe_ptr \<Rightarrow> 'k \<Rightarrow> 'r \<times> 'k"
  io_uring_queue_exit_stray :: "handle_ptr \<Rightarrow> 'k \<Rightarrow> fault + 'k"
  io_uring_submit_and_wait_stray :: "handle_ptr \<Rightarrow> 32 word \<Rightarrow> 'k \<Rightarrow> fault + (int \<times> 'k)"
  io_uring_get_sqe_stray :: "handle_ptr \<Rightarrow> 'k \<Rightarrow> fault + (sqe_ptr \<times> 'k)"
  io_uring_cqe_seen_stray :: "handle_ptr \<Rightarrow> cqe_ptr \<Rightarrow> 'k \<Rightarrow> fault + 'k"

text \<open>\<^verbatim>\<open>free(p)\<close>: releases the block at \<open>p\<close>; \<^verbatim>\<open>free(NULL)\<close> does nothing.\<close>

definition free :: "(addr \<rightharpoonup> 'r cell) \<Rightarrow> handle_ptr \<Rightarrow> (addr \<rightharpoonup> 'r cell)" where
  "free h p = (case p of None \<Rightarrow> h | Some a \<Rightarrow> h(a := None))"

subsection \<open>The five functions of CIOUring.c\<close>

text \<open>
  \<^verbatim>\<open>
  struct io_uring_handle* iouring_create(unsigned entries) {
      struct io_uring_handle* handle = malloc(sizeof(struct io_uring_handle));
      if (!handle) { return NULL; }
      if (io_uring_queue_init(entries, &handle->ring, 0) < 0) {
          free(handle);
          return NULL;
      }
      return handle;
  }
  \<close>
\<close>

definition iouring_create ::
  "('r, 'k) extern \<Rightarrow> 32 word \<Rightarrow> ('r, 'k) world \<Rightarrow> handle_ptr \<times> ('r, 'k) world" where
  "iouring_create E entries w =
     (case malloc E (heap w) of
        None \<Rightarrow> (None, w)
      | Some a \<Rightarrow>
          (let w1 = w\<lparr>heap := (heap w)(a \<mapsto> Uninit)\<rparr> in
           case io_uring_queue_init E entries 0 (kernel w1) of
             (rc, r, k) \<Rightarrow>
               if rc < 0
               then (None, w1\<lparr>heap := free (heap w1) (Some a), kernel := k\<rparr>)
               else (Some a, w1\<lparr>heap := (heap w1)(a \<mapsto> Init \<lparr>ring = r\<rparr>), kernel := k\<rparr>)))"

text \<open>
  \<^verbatim>\<open>
  void iouring_destroy(struct io_uring_handle* handle) {
      io_uring_queue_exit(&handle->ring);
      free(handle);
  }
  \<close>
\<close>

definition iouring_destroy ::
  "('r, 'k) extern \<Rightarrow> handle_ptr \<Rightarrow> ('r, 'k) world \<Rightarrow> fault + ('r, 'k) world" where
  "iouring_destroy E handle w =
     (case handle of
        None \<Rightarrow>
          (case io_uring_queue_exit_stray E handle (kernel w) of
             Inl e \<Rightarrow> Inl e
           | Inr k \<Rightarrow> Inr (w\<lparr>heap := free (heap w) handle, kernel := k\<rparr>))
      | Some a \<Rightarrow>
          (case heap w a of
             Some (Init hnd) \<Rightarrow>
               (case io_uring_queue_exit E (ring hnd) (kernel w) of
                  (r, k) \<Rightarrow>
                    Inr (w\<lparr>heap := free ((heap w)(a \<mapsto> Init (hnd\<lparr>ring := r\<rparr>))) handle,
                           kernel := k\<rparr>))
           | Some Uninit \<Rightarrow>
               (case io_uring_queue_exit_stray E handle (kernel w) of
                  Inl e \<Rightarrow> Inl e
                | Inr k \<Rightarrow> Inr (w\<lparr>heap := free (heap w) handle, kernel := k\<rparr>))
           | None \<Rightarrow>
               (case io_uring_queue_exit_stray E handle (kernel w) of
                  Inl e \<Rightarrow> Inl e
                | Inr k \<Rightarrow> Inl InvalidFree)))"

text \<open>
  \<^verbatim>\<open>
  int iouring_submit_and_wait(struct io_uring_handle* handle, unsigned wait_nr) {
      return io_uring_submit_and_wait(&handle->ring, wait_nr);
  }
  \<close>
\<close>

definition iouring_submit_and_wait ::
  "('r, 'k) extern \<Rightarrow> handle_ptr \<Rightarrow> 32 word \<Rightarrow> ('r, 'k) world \<Rightarrow> fault + (int \<times> ('r, 'k) world)" where
  "iouring_submit_and_wait E handle wait_nr w =
     (case handle of
        None \<Rightarrow>
          (case io_uring_submit_and_wait_stray E handle wait_nr (kernel w) of
             Inl e \<Rightarrow> Inl e
           | Inr (rc, k) \<Rightarrow> Inr (rc, w\<lparr>kernel := k\<rparr>))
      | Some a \<Rightarrow>
          (case heap w a of
             Some (Init hnd) \<Rightarrow>
               (case io_uring_submit_and_wait E (ring hnd) wait_nr (kernel w) of
                  None \<Rightarrow> Inl NeverReturns
                | Some (rc, r, k) \<Rightarrow>
                    Inr (rc, w\<lparr>heap := (heap w)(a \<mapsto> Init (hnd\<lparr>ring := r\<rparr>)), kernel := k\<rparr>))
           | _ \<Rightarrow>
               (case io_uring_submit_and_wait_stray E handle wait_nr (kernel w) of
                  Inl e \<Rightarrow> Inl e
                | Inr (rc, k) \<Rightarrow> Inr (rc, w\<lparr>kernel := k\<rparr>))))"

text \<open>
  \<^verbatim>\<open>
  struct io_uring_sqe* iouring_get_sqe(struct io_uring_handle* handle) {
      return io_uring_get_sqe(&handle->ring);
  }
  \<close>
\<close>

definition iouring_get_sqe ::
  "('r, 'k) extern \<Rightarrow> handle_ptr \<Rightarrow> ('r, 'k) world \<Rightarrow> fault + (sqe_ptr \<times> ('r, 'k) world)" where
  "iouring_get_sqe E handle w =
     (case handle of
        None \<Rightarrow>
          (case io_uring_get_sqe_stray E handle (kernel w) of
             Inl e \<Rightarrow> Inl e
           | Inr (sqe, k) \<Rightarrow> Inr (sqe, w\<lparr>kernel := k\<rparr>))
      | Some a \<Rightarrow>
          (case heap w a of
             Some (Init hnd) \<Rightarrow>
               (case io_uring_get_sqe E (ring hnd) (kernel w) of
                  (sqe, r, k) \<Rightarrow>
                    Inr (sqe, w\<lparr>heap := (heap w)(a \<mapsto> Init (hnd\<lparr>ring := r\<rparr>)), kernel := k\<rparr>))
           | _ \<Rightarrow>
               (case io_uring_get_sqe_stray E handle (kernel w) of
                  Inl e \<Rightarrow> Inl e
                | Inr (sqe, k) \<Rightarrow> Inr (sqe, w\<lparr>kernel := k\<rparr>))))"

text \<open>
  \<^verbatim>\<open>
  void iouring_cqe_seen(struct io_uring_handle* handle, struct io_uring_cqe* cqe) {
      io_uring_cqe_seen(&handle->ring, cqe);
  }
  \<close>
\<close>

definition iouring_cqe_seen ::
  "('r, 'k) extern \<Rightarrow> handle_ptr \<Rightarrow> cqe_ptr \<Rightarrow> ('r, 'k) world \<Rightarrow> fault + ('r, 'k) world" where
  "iouring_cqe_seen E handle cqe w =
     (case handle of
        None \<Rightarrow>
          (case io_uring_cqe_seen_stray E handle cqe (kernel w) of
             Inl e \<Rightarrow> Inl e
           | Inr k \<Rightarrow> Inr (w\<lparr>kernel := k\<rparr>))
      | Some a \<Rightarrow>
          (case heap w a of
             Some (Init hnd) \<Rightarrow>
               (case io_uring_cqe_seen E (ring hnd) cqe (kernel w) of
                  (r, k) \<Rightarrow>
                    Inr (w\<lparr>heap := (heap w)(a \<mapsto> Init (hnd\<lparr>ring := r\<rparr>)), kernel := k\<rparr>))
           | _ \<Rightarrow>
               (case io_uring_cqe_seen_stray E handle cqe (kernel w) of
                  Inl e \<Rightarrow> Inl e
                | Inr k \<Rightarrow> Inr (w\<lparr>kernel := k\<rparr>))))"

text \<open>A handle pointer is valid in a state when it is not \<^verbatim>\<open>NULL\<close> and points at an
  initialised handle.\<close>

definition valid_handle :: "('r, 'k) world \<Rightarrow> handle_ptr \<Rightarrow> bool" where
  "valid_handle w handle =
     (case handle of
        None \<Rightarrow> False
      | Some a \<Rightarrow> (case heap w a of Some (Init hnd) \<Rightarrow> True | _ \<Rightarrow> False))"

subsection \<open>Sequences of calls\<close>

text \<open>The three calls a client makes on a live handle between creation and destruction.\<close>

datatype op = GetSqe | SubmitAndWait "32 word" | CqeSeen cqe_ptr

fun step :: "('r, 'k) extern \<Rightarrow> handle_ptr \<Rightarrow> op \<Rightarrow> ('r, 'k) world \<Rightarrow> fault + ('r, 'k) world" where
  "step E handle GetSqe w = map_sum id snd (iouring_get_sqe E handle w)"
| "step E handle (SubmitAndWait wait_nr) w = map_sum id snd (iouring_submit_and_wait E handle wait_nr w)"
| "step E handle (CqeSeen cqe) w = iouring_cqe_seen E handle cqe w"

text \<open>Running a list of calls, each on a handle of its own choice, stops at the first
  one that does not return.\<close>

fun run :: "('r, 'k) extern \<Rightarrow> (handle_ptr \<times> op) list \<Rightarrow> ('r, 'k) world \<Rightarrow> fault + ('r, 'k) world" where
  "run E [] w = Inr w"
| "run E ((handle, x) # calls) w =
     (case step E handle x w of Inl e \<Rightarrow> Inl e | Inr w' \<Rightarrow> run E calls w')"

text \<open>\<open>n\<close> calls of \<^verbatim>\<open>iouring_get_sqe\<close> in a row, with the pointers they return.\<close>

fun get_sqes :: "('r, 'k) extern \<Rightarrow> handle_ptr \<Rightarrow> nat \<Rightarrow> ('r, 'k) world \<Rightarrow> fault + (sqe_ptr list \<times> ('r, 'k) world)" where
  "get_sqes E handle 0 w = Inr ([], w)"
| "get_sqes E handle (Suc n) w =
     (case iouring_get_sqe E handle w of
        Inl e \<Rightarrow> Inl e
      | Inr (sqe, w') \<Rightarrow>
          (case get_sqes E handle n w' of
             Inl e \<Rightarrow> Inl e
           | Inr (sqes, w'') \<Rightarrow> Inr (sqe # sqes, w'')))"

section \<open>The ring substrate, from the specification\<close>

text \<open>
  liburing and the kernel are not part of the sources. Claims about what the library
  calls themselves do (when a slot is refused, what a publish flushes, what happens to
  the queue depth) are settled against the following model of the collaborator
  surface of the specification (sections 3, 4.1 and 6).
\<close>

text \<open>Modelled from the spec: the kernel side of one ring pair, which is missing from the
  sources. "Ring Handle: owns kernel-visible submission ring, completion ring, and
  queue-depth capacity N": \<open>depth\<close> is N, \<open>reserved\<close> counts the submission slots
  "currently reserved and not yet handed to the kernel", \<open>inflight\<close> the requests
  handed to the kernel and not yet completed, \<open>ready\<close> the completions that are ready
  and not yet marked consumed.
\<close>

record uring =
  depth :: nat
  reserved :: nat
  inflight :: nat
  ready :: nat

text \<open>Modelled from the spec: \<^verbatim>\<open>struct io_uring\<close>, missing from the sources. The user-side
  structure names the kernel's ring pair by a descriptor.
\<close>

record io_uring =
  ring_fd :: nat

text \<open>Modelled from the spec: the kernel, missing from the sources: the ring pairs that
  exist, the next descriptor it hands out and the number of descriptors it is willing
  to hand out ("create_ring(capacity) -> Handle | Error": the error is the kernel
  refusing a further ring).
\<close>

record kernel_state =
  rings :: "nat \<rightharpoonup> uring"
  next_fd :: nat
  fd_limit :: nat

text \<open>Modelled from the spec: \<^verbatim>\<open>io_uring_queue_init\<close>, missing from the sources.
  "create_ring(capacity) -> Handle | Error: allocate kernel-shared rings sized for
  capacity outstanding slots". A refusal is a negative error number.
\<close>

definition spec_queue_init :: "32 word \<Rightarrow> 32 word \<Rightarrow> kernel_state \<Rightarrow> int \<times> io_uring \<times> kernel_state" where
  "spec_queue_init entries flags k =
     (if next_fd k < fd_limit k
      then (0, \<lparr>ring_fd = next_fd k\<rparr>,
            k\<lparr>rings := (rings k)(next_fd k \<mapsto>
                 \<lparr>depth = unat entries, reserved = 0, inflight = 0, ready = 0\<rparr>),
              next_fd := Suc (next_fd k)\<rparr>)
      else (- 24, \<lparr>ring_fd = 0\<rparr>, k))"

text \<open>Modelled from the spec: \<^verbatim>\<open>io_uring_queue_exit\<close>, missing from the sources.
  "destroy_ring(Handle): release all kernel resources".
\<close>

definition spec_queue_exit :: "io_uring \<Rightarrow> kernel_state \<Rightarrow> io_uring \<times> kernel_state" where
  "spec_queue_exit r k = (r, k\<lparr>rings := (rings k)(ring_fd r := None)\<rparr>)"

text \<open>Modelled from the spec: \<^verbatim>\<open>io_uring_get_sqe\<close>, missing from the sources.
  "reserve_submission_slot(Handle) -> SlotRef | QueueFull"; "acquire() returns a
  writable submission slot or reports QueueFull when all N slots are currently
  reserved and not yet handed to the kernel". The slot handed out is the next unused
  one; a ring that no longer exists has no slot to give.
\<close>

definition spec_get_sqe :: "io_uring \<Rightarrow> kernel_state \<Rightarrow> sqe_ptr \<times> io_uring \<times> kernel_state" where
  "spec_get_sqe r k =
     (case rings k (ring_fd r) of
        None \<Rightarrow> (None, r, k)
      | Some u \<Rightarrow>
          if reserved u < depth u
          then (Some (reserved u), r,
                k\<lparr>rings := (rings k)(ring_fd r \<mapsto> u\<lparr>reserved := Suc (reserved u)\<rparr>)\<rparr>)
          else (None, r, k))"

text \<open>Modelled from the spec: \<^verbatim>\<open>io_uring_submit_and_wait\<close>, missing from the sources.
  "publish_submissions(Handle, wait_for >= 0) -> submitted_count | Error: flush
  reserved slots to the kernel, optionally blocking until wait_for completions are
  ready"; "a slot becomes free again only after the Submission Path has successfully
  handed it to the kernel (not after completion)". All reserved slots become
  in-flight requests; while the call waits the kernel completes in-flight requests
  until \<open>wait_nr\<close> completions are ready, and the call never returns when there are
  not enough requests to complete. On a ring that no longer exists the kernel rejects
  the call with a negative error number.
\<close>

definition spec_submit_and_wait ::
  "io_uring \<Rightarrow> 32 word \<Rightarrow> kernel_state \<Rightarrow> (int \<times> io_uring \<times> kernel_state) option" where
  "spec_submit_and_wait r wait_nr k =
     (case rings k (ring_fd r) of
        None \<Rightarrow> Some (- 9, r, k)
      | Some u \<Rightarrow>
          (let n = reserved u;
               u1 = u\<lparr>reserved := 0, inflight := inflight u + n\<rparr>;
               need = unat wait_nr - ready u1
           in if inflight u1 < need then None
              else Some (int n, r,
                     k\<lparr>rings := (rings k)(ring_fd r \<mapsto>
                          u1\<lparr>inflight := inflight u1 - need, ready := ready u1 + need\<rparr>)\<rparr>)))"

text \<open>Modelled from the spec: \<^verbatim>\<open>io_uring_cqe_seen\<close>, missing from the sources.
  "mark_completion_consumed(Handle, CompletionEntry)": "mark the kernel-side entry as
  consumed so its ring slot can be reused". One ready completion leaves the completion
  ring; a \<^verbatim>\<open>NULL\<close> entry marks nothing.
\<close>

definition spec_cqe_seen :: "io_uring \<Rightarrow> cqe_ptr \<Rightarrow> kernel_state \<Rightarrow> io_uring \<times> kernel_state" where
  "spec_cqe_seen r cqe k =
     (case cqe of
        None \<Rightarrow> (r, k)
      | Some c \<Rightarrow>
          (case rings k (ring_fd r) of
             None \<Rightarrow> (r, k)
           | Some u \<Rightarrow>
               (r, k\<lparr>rings := (rings k)(ring_fd r \<mapsto>
                        u\<lparr>ready := (if 0 < ready u then ready u - 1 else 0)\<rparr>)\<rparr>)))"

text \<open>Modelled from the spec: what the four calls do with a pointer that has no ring
  behind it, missing from the sources. Each modelled call starts by reading the
  descriptor out of the structure (\<open>ring_fd r\<close> above), which is a read through the
  pointer; only \<^verbatim>\<open>io_uring_cqe_seen\<close> with a \<^verbatim>\<open>NULL\<close> entry "marks nothing" and returns
  without looking at its ring.\<close>

definition spec_queue_exit_stray :: "handle_ptr \<Rightarrow> kernel_state \<Rightarrow> fault + kernel_state" where
  "spec_queue_exit_stray p k = Inl InvalidHandle"

definition spec_submit_and_wait_stray ::
  "handle_ptr \<Rightarrow> 32 word \<Rightarrow> kernel_state \<Rightarrow> fault + (int \<times> kernel_state)" where
  "spec_submit_and_wait_stray p wait_nr k = Inl InvalidHandle"

definition spec_get_sqe_stray :: "handle_ptr \<Rightarrow> kernel_state \<Rightarrow> fault + (sqe_ptr \<times> kernel_state)" where
  "spec_get_sqe_stray p k = Inl InvalidHandle"

definition spec_cqe_seen_stray :: "handle_ptr \<Rightarrow> cqe_ptr \<Rightarrow> kernel_state \<Rightarrow> fault + kernel_state" where
  "spec_cqe_seen_stray p cqe k = (case cqe of None \<Rightarrow> Inr k | Some c \<Rightarrow> Inl InvalidHandle)"

text \<open>An allocator over a fixed arena: \<^verbatim>\<open>malloc\<close> returns the first free block of the
  arena and \<^verbatim>\<open>NULL\<close> when none is left.\<close>

definition arena_malloc :: "addr list \<Rightarrow> (addr \<rightharpoonup> 'r cell) \<Rightarrow> addr option" where
  "arena_malloc arena h = find (\<lambda>a. h a = None) arena"

text \<open>The wrapper's environment with the substrate of the specification.\<close>

definition spec_extern :: "addr list \<Rightarrow> (io_uring, kernel_state) extern" where
  "spec_extern arena =
     \<lparr>malloc = arena_malloc arena,
      io_uring_queue_init = spec_queue_init,
      io_uring_queue_exit = spec_queue_exit,
      io_uring_submit_and_wait = spec_submit_and_wait,
      io_uring_get_sqe = spec_get_sqe,
      io_uring_cqe_seen = spec_cqe_seen,
      io_uring_queue_exit_stray = spec_queue_exit_stray,
      io_uring_submit_and_wait_stray = spec_submit_and_wait_stray,
      io_uring_get_sqe_stray = spec_get_sqe_stray,
      io_uring_cqe_seen_stray = spec_cqe_seen_stray\<rparr>"


text \<open>The kernel ring pair behind the handle at address \<open>a\<close>, when there is one.\<close>

definition ring_of :: "(io_uring, kernel_state) world \<Rightarrow> addr \<Rightarrow> uring option" where
  "ring_of w a =
     (case heap w a of
        Some (Init hnd) \<Rightarrow> rings (kernel w) (ring_fd (ring hnd))
      | _ \<Rightarrow> None)"

text \<open>A state with nothing allocated and a kernel that hands out \<open>limit\<close> rings.\<close>

definition boot :: "nat \<Rightarrow> (io_uring, kernel_state) world" where
  "boot limit = \<lparr>heap = Map.empty, kernel = \<lparr>rings = Map.empty, next_fd = 0, fd_limit = limit\<rparr>\<rparr>"

text \<open>A state with one handle, at address 1, whose ring is the kernel's ring 0 in state
  \<open>u\<close>; the arena and the kernel's descriptors are used up.\<close>

definition one_ring :: "uring \<Rightarrow> (io_uring, kernel_state) world" where
  "one_ring u =
     \<lparr>heap = [1 \<mapsto> Init \<lparr>ring = \<lparr>ring_fd = 0\<rparr>\<rparr>],
      kernel = \<lparr>rings = [0 \<mapsto> u], next_fd = 1, fd_limit = 1\<rparr>\<rparr>"

text \<open>A state with two handles, at addresses 1 and 2, on the kernel's rings 0 and 1.\<close>

definition two_rings :: "uring \<Rightarrow> uring \<Rightarrow> (io_uring, kernel_state) world" where
  "two_rings u v =
     \<lparr>heap = [1 \<mapsto> Init \<lparr>ring = \<lparr>ring_fd = 0\<rparr>\<rparr>, 2 \<mapsto> Init \<lparr>ring = \<lparr>ring_fd = 1\<rparr>\<rparr>],
      kernel = \<lparr>rings = [0 \<mapsto> u, 1 \<mapsto> v], next_fd = 2, fd_limit = 2\<rparr>\<rparr>"

text \<open>How one kernel ring may change over calls on handles: it neither appears nor
  disappears, its depth is kept, and a ring with no more slots reserved than its depth
  stays so.\<close>

definition ring_step :: "uring option \<Rightarrow> uring option \<Rightarrow> bool" where
  "ring_step x y =
     (case x of
        None \<Rightarrow> y = None
      | Some u \<Rightarrow>
          (case y of
             None \<Rightarrow> False
           | Some u' \<Rightarrow> depth u' = depth u \<and> (reserved u \<le> depth u \<longrightarrow> reserved u' \<le> depth u')))"

section \<open>Properties of the wrapper\<close>

lemma handle_update_ring: "(hnd :: 'r io_uring_handle)\<lparr>ring := r\<rparr> = \<lparr>ring = r\<rparr>"
  by (cases hnd) simp

subsection \<open>Creation\<close>

text \<open>
  C1. For every \<open>entries\<close> value \<^verbatim>\<open>iouring_create\<close> returns: \<^verbatim>\<open>NULL\<close> exactly when
  \<^verbatim>\<open>malloc\<close> fails or \<^verbatim>\<open>io_uring_queue_init\<close> reports a negative result, and otherwise
  the freshly allocated handle, which then holds the ring that
  \<^verbatim>\<open>io_uring_queue_init\<close> initialised for that \<open>entries\<close> value (with flags 0) and is a
  valid handle. A handle whose ring initialisation failed is never returned.
\<close>

theorem iouring_create_result:
  assumes "iouring_create E entries w = (res, w')"
  shows "(res = None) =
           (malloc E (heap w) = None \<or> fst (io_uring_queue_init E entries 0 (kernel w)) < 0)
         \<and> (\<forall>a. res = Some a \<longrightarrow>
               malloc E (heap w) = Some a
               \<and> (\<exists>rc r k. io_uring_queue_init E entries 0 (kernel w) = (rc, r, k)
                    \<and> 0 \<le> rc
                    \<and> heap w' = (heap w)(a \<mapsto> Init \<lparr>ring = r\<rparr>)
                    \<and> kernel w' = k
                    \<and> valid_handle w' res))"
proof (cases "malloc E (heap w)")
  case None
  with assms show ?thesis
    by (simp add: iouring_create_def)
next
  case (Some a)
  obtain rc r k where q: "io_uring_queue_init E entries 0 (kernel w) = (rc, r, k)"
    by (cases "io_uring_queue_init E entries 0 (kernel w)")
  show ?thesis
  proof (cases "rc < 0")
    case True
    with assms Some q show ?thesis
      by (simp add: iouring_create_def)
  next
    case False
    with assms Some q have "res = Some a"
      and "w' = w\<lparr>heap := (heap w)(a \<mapsto> Init \<lparr>ring = r\<rparr>), kernel := k\<rparr>"
      by (auto simp: iouring_create_def)
    with Some q False show ?thesis
      by (simp add: valid_handle_def)
  qed
qed

theorem iouring_create_result_witness:
  "iouring_create (spec_extern [1]) 4 (boot 1)
     = (Some 1, \<lparr>heap = [1 \<mapsto> Init \<lparr>ring = \<lparr>ring_fd = 0\<rparr>\<rparr>],
                 kernel = \<lparr>rings = [0 \<mapsto> \<lparr>depth = 4, reserved = 0, inflight = 0, ready = 0\<rparr>],
                            next_fd = 1, fd_limit = 1\<rparr>\<rparr>)
   \<and> valid_handle (snd (iouring_create (spec_extern [1]) 4 (boot 1))) (Some 1)
   \<and> fst (iouring_create (spec_extern [1]) 4 (boot 0)) = None
   \<and> fst (io_uring_queue_init (spec_extern [1]) 4 0 (kernel (boot 0))) < 0"
proof -
  have c: "iouring_create (spec_extern [1]) 4 (boot 1)
     = (Some 1, \<lparr>heap = [1 \<mapsto> Init \<lparr>ring = \<lparr>ring_fd = 0\<rparr>\<rparr>],
                 kernel = \<lparr>rings = [0 \<mapsto> \<lparr>depth = 4, reserved = 0, inflight = 0, ready = 0\<rparr>],
                            next_fd = 1, fd_limit = 1\<rparr>\<rparr>)"
    by (simp add: iouring_create_def spec_extern_def boot_def arena_malloc_def spec_queue_init_def)
  have d: "iouring_create (spec_extern [1]) 4 (boot 0) = (None, boot 0)"
    by (simp add: iouring_create_def spec_extern_def boot_def arena_malloc_def spec_queue_init_def free_def)
  from iouring_create_result [OF c] iouring_create_result [OF d] c d show ?thesis
    by (auto simp: spec_extern_def boot_def arena_malloc_def)
qed

text \<open>
  C3. Whenever \<^verbatim>\<open>iouring_create\<close> returns \<^verbatim>\<open>NULL\<close>, the block it obtained from
  \<^verbatim>\<open>malloc\<close> (if any) is not allocated in the resulting heap; and when \<^verbatim>\<open>malloc\<close> handed
  out a block that was free before, the heap is exactly what it was before the call.
\<close>

theorem iouring_create_failure_frees:
  assumes "iouring_create E entries w = (None, w')"
  shows "(\<forall>a. malloc E (heap w) = Some a \<longrightarrow> heap w' a = None)
         \<and> ((\<forall>a. malloc E (heap w) = Some a \<longrightarrow> heap w a = None) \<longrightarrow> heap w' = heap w)"
  using assms
  by (auto simp: iouring_create_def Let_def free_def split: option.splits prod.splits if_splits)

theorem iouring_create_failure_frees_witness:
  "iouring_create (spec_extern [1]) 4 (boot 0) = (None, boot 0)
   \<and> malloc (spec_extern [1]) (heap (boot 0)) = Some 1
   \<and> fst (io_uring_queue_init (spec_extern [1]) 4 0 (kernel (boot 0))) = - 24
   \<and> heap (snd (iouring_create (spec_extern [1]) 4 (boot 0))) 1 = None"
proof -
  have d: "iouring_create (spec_extern [1]) 4 (boot 0) = (None, boot 0)"
    by (simp add: iouring_create_def spec_extern_def boot_def arena_malloc_def spec_queue_init_def free_def)
  have m: "malloc (spec_extern [1]) (heap (boot 0)) = Some 1"
    by (simp add: spec_extern_def boot_def arena_malloc_def)
  have q: "fst (io_uring_queue_init (spec_extern [1]) 4 0 (kernel (boot 0))) = - 24"
    by (simp add: spec_extern_def boot_def spec_queue_init_def)
  from iouring_create_failure_frees [OF d] m have "heap (boot 0) 1 = None"
    by simp
  with d m q show ?thesis
    by simp
qed

subsection \<open>Destruction\<close>

text \<open>
  C2 (as stated) fails: \<^verbatim>\<open>iouring_destroy\<close> has no notion of outstanding requests. On a
  ring of depth 1 with one request reserved and published, so one request in flight,
  it returns normally, the handle's block is freed and the kernel's ring is gone.
\<close>

theorem iouring_destroy_busy_counterexample:
  "iouring_create (spec_extern [1]) 1 (boot 1)
     = (Some 1, one_ring \<lparr>depth = 1, reserved = 0, inflight = 0, ready = 0\<rparr>)
   \<and> iouring_get_sqe (spec_extern [1]) (Some 1) (one_ring \<lparr>depth = 1, reserved = 0, inflight = 0, ready = 0\<rparr>)
     = Inr (Some 0, one_ring \<lparr>depth = 1, reserved = 1, inflight = 0, ready = 0\<rparr>)
   \<and> iouring_submit_and_wait (spec_extern [1]) (Some 1) 0 (one_ring \<lparr>depth = 1, reserved = 1, inflight = 0, ready = 0\<rparr>)
     = Inr (1, one_ring \<lparr>depth = 1, reserved = 0, inflight = 1, ready = 0\<rparr>)
   \<and> map_option inflight (ring_of (one_ring \<lparr>depth = 1, reserved = 0, inflight = 1, ready = 0\<rparr>) 1) = Some 1
   \<and> iouring_destroy (spec_extern [1]) (Some 1) (one_ring \<lparr>depth = 1, reserved = 0, inflight = 1, ready = 0\<rparr>)
     = Inr \<lparr>heap = Map.empty, kernel = \<lparr>rings = Map.empty, next_fd = 1, fd_limit = 1\<rparr>\<rparr>"
  by (simp add: iouring_create_def iouring_get_sqe_def iouring_submit_and_wait_def
      iouring_destroy_def spec_extern_def boot_def one_ring_def arena_malloc_def
      spec_queue_init_def spec_get_sqe_def spec_submit_and_wait_def spec_queue_exit_def
      ring_of_def free_def)

text \<open>
  C2 (amended). \<^verbatim>\<open>iouring_destroy\<close> makes no check for outstanding requests and has no
  error result: on every valid handle, whatever the state of its ring, it calls
  \<^verbatim>\<open>io_uring_queue_exit\<close> on the embedded ring, frees the handle's block and returns.
\<close>

theorem iouring_destroy_unconditional:
  assumes "heap w a = Some (Init hnd)"
  shows "iouring_destroy E (Some a) w =
           Inr (w\<lparr>heap := (heap w)(a := None),
                  kernel := snd (io_uring_queue_exit E (ring hnd) (kernel w))\<rparr>)"
  using assms
  by (simp add: iouring_destroy_def free_def split: prod.splits)

theorem iouring_destroy_unconditional_witness:
  "heap (one_ring \<lparr>depth = 1, reserved = 0, inflight = 1, ready = 0\<rparr>) 1 = Some (Init \<lparr>ring = \<lparr>ring_fd = 0\<rparr>\<rparr>)
   \<and> iouring_destroy (spec_extern [1]) (Some 1) (one_ring \<lparr>depth = 1, reserved = 0, inflight = 1, ready = 0\<rparr>)
     = Inr \<lparr>heap = Map.empty, kernel = \<lparr>rings = Map.empty, next_fd = 1, fd_limit = 1\<rparr>\<rparr>"
proof -
  have h: "heap (one_ring \<lparr>depth = 1, reserved = 0, inflight = 1, ready = 0\<rparr>) 1 = Some (Init \<lparr>ring = \<lparr>ring_fd = 0\<rparr>\<rparr>)"
    by (simp add: one_ring_def)
  from iouring_destroy_unconditional [OF h, of "spec_extern [1]"] h show ?thesis
    by (simp add: spec_extern_def one_ring_def spec_queue_exit_def)
qed

subsection \<open>Handles are passed on unchecked\<close>




subsection \<open>The wrappers pass through\<close>

text \<open>
  C10. On a valid handle each of \<^verbatim>\<open>iouring_submit_and_wait\<close>, \<^verbatim>\<open>iouring_get_sqe\<close> and
  \<^verbatim>\<open>iouring_cqe_seen\<close> is the liburing function of the same name applied to the ring
  embedded in the handle, with the other arguments unchanged: the wrapper returns what
  the library function returns (and does not return when that blocks), the embedded
  ring and the kernel are left as the library function leaves them, and every other
  block of the heap is untouched.
\<close>

theorem wrappers_pass_through:
  assumes "heap w a = Some (Init hnd)"
  shows "(io_uring_submit_and_wait E (ring hnd) wait_nr (kernel w) = None \<longrightarrow>
            iouring_submit_and_wait E (Some a) wait_nr w = Inl NeverReturns)
       \<and> (\<forall>rc r k. io_uring_submit_and_wait E (ring hnd) wait_nr (kernel w) = Some (rc, r, k) \<longrightarrow>
            (\<exists>w'. iouring_submit_and_wait E (Some a) wait_nr w = Inr (rc, w')
                 \<and> heap w' a = Some (Init \<lparr>ring = r\<rparr>) \<and> kernel w' = k
                 \<and> (\<forall>b. b \<noteq> a \<longrightarrow> heap w' b = heap w b)))
       \<and> (\<forall>sqe r k. io_uring_get_sqe E (ring hnd) (kernel w) = (sqe, r, k) \<longrightarrow>
            (\<exists>w'. iouring_get_sqe E (Some a) w = Inr (sqe, w')
                 \<and> heap w' a = Some (Init \<lparr>ring = r\<rparr>) \<and> kernel w' = k
                 \<and> (\<forall>b. b \<noteq> a \<longrightarrow> heap w' b = heap w b)))
       \<and> (\<forall>r k. io_uring_cqe_seen E (ring hnd) cqe (kernel w) = (r, k) \<longrightarrow>
            (\<exists>w'. iouring_cqe_seen E (Some a) cqe w = Inr w'
                 \<and> heap w' a = Some (Init \<lparr>ring = r\<rparr>) \<and> kernel w' = k
                 \<and> (\<forall>b. b \<noteq> a \<longrightarrow> heap w' b = heap w b)))"
  using assms
  by (simp add: iouring_submit_and_wait_def iouring_get_sqe_def iouring_cqe_seen_def
      handle_update_ring)

theorem wrappers_pass_through_witness:
  "heap (two_rings \<lparr>depth = 2, reserved = 1, inflight = 0, ready = 0\<rparr>
                    \<lparr>depth = 1, reserved = 0, inflight = 0, ready = 0\<rparr>) 1
     = Some (Init \<lparr>ring = \<lparr>ring_fd = 0\<rparr>\<rparr>)
   \<and> iouring_get_sqe (spec_extern []) (Some 1)
        (two_rings \<lparr>depth = 2, reserved = 1, inflight = 0, ready = 0\<rparr>
                   \<lparr>depth = 1, reserved = 0, inflight = 0, ready = 0\<rparr>)
      = Inr (Some 1, two_rings \<lparr>depth = 2, reserved = 2, inflight = 0, ready = 0\<rparr>
                               \<lparr>depth = 1, reserved = 0, inflight = 0, ready = 0\<rparr>)
   \<and> iouring_submit_and_wait (spec_extern []) (Some 1) 1
        (two_rings \<lparr>depth = 2, reserved = 1, inflight = 0, ready = 0\<rparr>
                   \<lparr>depth = 1, reserved = 0, inflight = 0, ready = 0\<rparr>)
      = Inr (1, two_rings \<lparr>depth = 2, reserved = 0, inflight = 0, ready = 1\<rparr>
                          \<lparr>depth = 1, reserved = 0, inflight = 0, ready = 0\<rparr>)
   \<and> iouring_submit_and_wait (spec_extern []) (Some 1) 2
        (two_rings \<lparr>depth = 2, reserved = 1, inflight = 0, ready = 0\<rparr>
                   \<lparr>depth = 1, reserved = 0, inflight = 0, ready = 0\<rparr>)
      = Inl NeverReturns"
proof -
  let ?W = "two_rings \<lparr>depth = 2, reserved = 1, inflight = 0, ready = 0\<rparr>
                      \<lparr>depth = 1, reserved = 0, inflight = 0, ready = 0\<rparr>"
  have h: "heap ?W 1 = Some (Init \<lparr>ring = \<lparr>ring_fd = 0\<rparr>\<rparr>)"
    by (simp add: two_rings_def)
  have g: "io_uring_get_sqe (spec_extern []) (ring \<lparr>ring = \<lparr>ring_fd = 0\<rparr>\<rparr>) (kernel ?W)
      = (Some 1, \<lparr>ring_fd = 0\<rparr>,
         kernel (two_rings \<lparr>depth = 2, reserved = 2, inflight = 0, ready = 0\<rparr>
                           \<lparr>depth = 1, reserved = 0, inflight = 0, ready = 0\<rparr>))"
    by (simp add: spec_extern_def two_rings_def spec_get_sqe_def fun_upd_twist numeral_2_eq_2)
  have s: "io_uring_submit_and_wait (spec_extern []) (ring \<lparr>ring = \<lparr>ring_fd = 0\<rparr>\<rparr>) 1 (kernel ?W)
      = Some (1, \<lparr>ring_fd = 0\<rparr>,
         kernel (two_rings \<lparr>depth = 2, reserved = 0, inflight = 0, ready = 1\<rparr>
                           \<lparr>depth = 1, reserved = 0, inflight = 0, ready = 0\<rparr>))"
    by (simp add: spec_extern_def two_rings_def spec_submit_and_wait_def fun_upd_twist)
  have b: "io_uring_submit_and_wait (spec_extern []) (ring \<lparr>ring = \<lparr>ring_fd = 0\<rparr>\<rparr>) 2 (kernel ?W) = None"
    by (simp add: spec_extern_def two_rings_def spec_submit_and_wait_def)
  have same: "w' = two_rings u v"
    if "heap w' 1 = Some (Init \<lparr>ring = \<lparr>ring_fd = 0\<rparr>\<rparr>)"
      and "kernel w' = kernel (two_rings u v)"
      and "\<forall>b. b \<noteq> 1 \<longrightarrow> heap w' b = heap ?W b" for w' u v
  proof -
    have "heap w' b = heap (two_rings u v) b" for b
      using that by (cases "b = 1") (simp_all add: two_rings_def)
    then have "heap w' = heap (two_rings u v)"
      by (rule ext)
    with that(2) show ?thesis
      by simp
  qed
  from wrappers_pass_through [OF h, where E = "spec_extern []" and wait_nr = 2 and cqe = None] b
  have 1: "iouring_submit_and_wait (spec_extern []) (Some 1) 2 ?W = Inl NeverReturns"
    by blast
  from wrappers_pass_through [OF h, where E = "spec_extern []" and wait_nr = 1 and cqe = None] s
  have 2: "iouring_submit_and_wait (spec_extern []) (Some 1) 1 ?W
      = Inr (1, two_rings \<lparr>depth = 2, reserved = 0, inflight = 0, ready = 1\<rparr>
                          \<lparr>depth = 1, reserved = 0, inflight = 0, ready = 0\<rparr>)"
    using same by blast
  from wrappers_pass_through [OF h, where E = "spec_extern []" and wait_nr = 0 and cqe = None] g
  have 3: "iouring_get_sqe (spec_extern []) (Some 1) ?W
      = Inr (Some 1, two_rings \<lparr>depth = 2, reserved = 2, inflight = 0, ready = 0\<rparr>
                               \<lparr>depth = 1, reserved = 0, inflight = 0, ready = 0\<rparr>)"
    using same by blast
  from h 1 2 3 show ?thesis
    by simp
qed

section \<open>Properties on the ring substrate of the specification\<close>

subsection \<open>The wrappers over the substrate\<close>

lemma ring_step_refl: "ring_step x x"
  by (simp add: ring_step_def split: option.splits)

lemma ring_step_trans: "ring_step x y \<Longrightarrow> ring_step y z \<Longrightarrow> ring_step x z"
  by (auto simp: ring_step_def split: option.splits)

lemma heap_upd_same: "heap w a = Some c \<Longrightarrow> w\<lparr>heap := (heap w)(a \<mapsto> c), kernel := k\<rparr> = w\<lparr>kernel := k\<rparr>"
  by (simp add: fun_upd_idem)

lemma spec_get_sqe_ring: "fst (snd (spec_get_sqe r k)) = r"
  by (simp add: spec_get_sqe_def split: option.splits)

lemma spec_cqe_seen_ring: "fst (spec_cqe_seen r c k) = r"
  by (simp add: spec_cqe_seen_def split: option.splits)

lemma spec_submit_and_wait_ring: "spec_submit_and_wait r n k = Some (rc, r', k') \<Longrightarrow> r' = r"
  by (auto simp: spec_submit_and_wait_def Let_def split: option.splits if_splits)

lemma spec_get_sqe_rings: "ring_step (rings k fd) (rings (snd (snd (spec_get_sqe r k))) fd)"
  by (auto simp: spec_get_sqe_def ring_step_def split: option.splits)

lemma spec_cqe_seen_rings: "ring_step (rings k fd) (rings (snd (spec_cqe_seen r c k)) fd)"
  by (auto simp: spec_cqe_seen_def ring_step_def split: option.splits)

lemma spec_submit_and_wait_rings:
  "spec_submit_and_wait r n k = Some (rc, r', k') \<Longrightarrow> ring_step (rings k fd) (rings k' fd)"
  by (auto simp: spec_submit_and_wait_def ring_step_def Let_def split: option.splits if_splits)

lemma get_sqe_spec:
  assumes "heap w a = Some (Init hnd)"
  shows "iouring_get_sqe (spec_extern ar) (Some a) w =
           Inr (fst (spec_get_sqe (ring hnd) (kernel w)),
                w\<lparr>kernel := snd (snd (spec_get_sqe (ring hnd) (kernel w)))\<rparr>)"
proof -
  obtain s r k where q: "spec_get_sqe (ring hnd) (kernel w) = (s, r, k)"
    by (cases "spec_get_sqe (ring hnd) (kernel w)")
  with spec_get_sqe_ring [of "ring hnd" "kernel w"] have "r = ring hnd"
    by simp
  with assms q show ?thesis
    by (simp add: iouring_get_sqe_def spec_extern_def heap_upd_same)
qed

lemma cqe_seen_spec:
  assumes "heap w a = Some (Init hnd)"
  shows "iouring_cqe_seen (spec_extern ar) (Some a) c w =
           Inr (w\<lparr>kernel := snd (spec_cqe_seen (ring hnd) c (kernel w))\<rparr>)"
proof -
  obtain r k where q: "spec_cqe_seen (ring hnd) c (kernel w) = (r, k)"
    by (cases "spec_cqe_seen (ring hnd) c (kernel w)")
  with spec_cqe_seen_ring [of "ring hnd" c "kernel w"] have "r = ring hnd"
    by simp
  with assms q show ?thesis
    by (simp add: iouring_cqe_seen_def spec_extern_def heap_upd_same)
qed

lemma submit_and_wait_spec:
  assumes "heap w a = Some (Init hnd)"
  shows "iouring_submit_and_wait (spec_extern ar) (Some a) n w =
           (case spec_submit_and_wait (ring hnd) n (kernel w) of
              None \<Rightarrow> Inl NeverReturns
            | Some (rc, r, k) \<Rightarrow> Inr (rc, w\<lparr>kernel := k\<rparr>))"
proof (cases "spec_submit_and_wait (ring hnd) n (kernel w)")
  case None
  with assms show ?thesis
    by (simp add: iouring_submit_and_wait_def spec_extern_def)
next
  case (Some t)
  obtain rc r k where t: "t = (rc, r, k)"
    by (cases t)
  with Some spec_submit_and_wait_ring have "r = ring hnd"
    by blast
  with assms Some t show ?thesis
    by (simp add: iouring_submit_and_wait_def spec_extern_def heap_upd_same)
qed

lemma step_spec_stray:
  assumes "\<not> valid_handle w h" and "step (spec_extern ar) h x w = Inr w'"
  shows "w' = w"
  using assms
  by (cases x)
    (auto simp: iouring_get_sqe_def iouring_submit_and_wait_def iouring_cqe_seen_def
      valid_handle_def spec_extern_def spec_get_sqe_stray_def spec_submit_and_wait_stray_def
      spec_cqe_seen_stray_def split: option.splits cell.splits)

lemma step_spec:
  assumes "step (spec_extern ar) h x w = Inr w'"
  shows "heap w' = heap w \<and> ring_step (rings (kernel w) fd) (rings (kernel w') fd)"
proof (cases "valid_handle w h")
  case False
  from step_spec_stray [OF False assms] have "w' = w" .
  then show ?thesis
    by (simp add: ring_step_refl)
next
  case True
  then obtain a hnd where h: "h = Some a" and c: "heap w a = Some (Init hnd)"
    by (auto simp: valid_handle_def split: option.splits cell.splits)
  show ?thesis
  proof (cases x)
    case GetSqe
    with assms h c show ?thesis
      by (auto simp: get_sqe_spec spec_get_sqe_rings)
  next
    case (SubmitAndWait n)
    with assms h c show ?thesis
      by (auto simp: submit_and_wait_spec spec_submit_and_wait_rings split: option.splits)
  next
    case (CqeSeen cqe)
    with assms h c show ?thesis
      by (auto simp: cqe_seen_spec spec_cqe_seen_rings)
  qed
qed

lemma run_spec:
  "run (spec_extern ar) calls w = Inr w' \<Longrightarrow>
     heap w' = heap w \<and> ring_step (rings (kernel w) fd) (rings (kernel w') fd)"
proof (induction calls arbitrary: w)
  case Nil
  then show ?case
    by (simp add: ring_step_refl)
next
  case (Cons c calls)
  obtain h x where c: "c = (h, x)"
    by (cases c)
  with Cons.prems obtain w1 where s: "step (spec_extern ar) h x w = Inr w1"
    and r: "run (spec_extern ar) calls w1 = Inr w'"
    by (auto split: sum.splits)
  from step_spec [OF s] Cons.IH [OF r] show ?case
    by (auto intro: ring_step_trans)
qed

lemma run_ring_of:
  assumes "run (spec_extern ar) calls w = Inr w'"
  shows "ring_step (ring_of w a) (ring_of w' a)"
proof -
  from run_spec [OF assms] have h: "heap w' = heap w"
    and r: "ring_step (rings (kernel w) fd) (rings (kernel w') fd)" for fd
    by simp_all
  show ?thesis
    using r by (auto simp: ring_of_def h ring_step_refl split: option.splits cell.splits)
qed

lemma create_ring_of:
  assumes "iouring_create (spec_extern ar) entries w0 = (Some a, w1)"
  shows "ring_of w1 a = Some \<lparr>depth = unat entries, reserved = 0, inflight = 0, ready = 0\<rparr>"
  using assms
  by (auto simp: iouring_create_def spec_extern_def spec_queue_init_def ring_of_def Let_def
      split: option.splits if_splits)

lemma reachable_ring:
  assumes "iouring_create (spec_extern ar) entries w0 = (Some a, w1)"
    and "run (spec_extern ar) calls w1 = Inr w"
  shows "\<exists>u. ring_of w a = Some u \<and> depth u = unat entries \<and> reserved u \<le> depth u"
  using run_ring_of [OF assms(2), of a] create_ring_of [OF assms(1)]
  by (auto simp: ring_step_def split: option.splits)

lemma ring_ofD:
  "ring_of w a = Some u \<Longrightarrow>
     \<exists>hnd. heap w a = Some (Init hnd) \<and> rings (kernel w) (ring_fd (ring hnd)) = Some u"
  by (auto simp: ring_of_def split: option.splits cell.splits)

lemma get_sqe_ring_of:
  assumes "ring_of w a = Some u"
  shows "\<exists>w'. iouring_get_sqe (spec_extern ar) (Some a) w =
                 Inr (if reserved u < depth u then Some (reserved u) else None, w')
             \<and> heap w' = heap w
             \<and> ring_of w' a =
                 Some (if reserved u < depth u then u\<lparr>reserved := Suc (reserved u)\<rparr> else u)"
proof -
  from ring_ofD [OF assms] obtain hnd where h: "heap w a = Some (Init hnd)"
    and r: "rings (kernel w) (ring_fd (ring hnd)) = Some u"
    by blast
  show ?thesis
    using h r by (simp add: get_sqe_spec [OF h] spec_get_sqe_def ring_of_def)
qed

lemma get_sqes_spec:
  assumes "ring_of w a = Some u" and "reserved u \<le> depth u"
  shows "\<exists>w'. get_sqes (spec_extern ar) (Some a) n w =
                 Inr (map Some [reserved u ..< min (reserved u + n) (depth u)]
                        @ replicate (reserved u + n - depth u) None, w')
             \<and> ring_of w' a = Some (u\<lparr>reserved := min (reserved u + n) (depth u)\<rparr>)"
  using assms
proof (induction n arbitrary: w u)
  case 0
  then show ?case
    by simp
next
  case (Suc n)
  from get_sqe_ring_of [OF Suc.prems(1), of ar] obtain w1 where
    g: "iouring_get_sqe (spec_extern ar) (Some a) w =
          Inr (if reserved u < depth u then Some (reserved u) else None, w1)"
    and r: "ring_of w1 a = Some (if reserved u < depth u then u\<lparr>reserved := Suc (reserved u)\<rparr> else u)"
    by blast
  show ?case
  proof (cases "reserved u < depth u")
    case True
    with r have r1: "ring_of w1 a = Some (u\<lparr>reserved := Suc (reserved u)\<rparr>)"
      by simp
    from True have b1: "reserved (u\<lparr>reserved := Suc (reserved u)\<rparr>) \<le> depth (u\<lparr>reserved := Suc (reserved u)\<rparr>)"
      by simp
    from Suc.IH [OF r1 b1] obtain w' where
      "get_sqes (spec_extern ar) (Some a) n w1 =
         Inr (map Some [Suc (reserved u) ..< min (Suc (reserved u) + n) (depth u)]
                @ replicate (Suc (reserved u) + n - depth u) None, w')"
      and "ring_of w' a = Some (u\<lparr>reserved := min (Suc (reserved u) + n) (depth u)\<rparr>)"
      by auto
    with g True show ?thesis
      by (simp add: upt_conv_Cons)
  next
    case False
    with Suc.prems(2) have e: "reserved u = depth u"
      by simp
    with r have r1: "ring_of w1 a = Some u"
      by simp
    from Suc.IH [OF r1 Suc.prems(2)] e obtain w' where
      "get_sqes (spec_extern ar) (Some a) n w1 = Inr (replicate n None, w')"
      and "ring_of w' a = Some (u\<lparr>reserved := depth u\<rparr>)"
      by auto
    with g e show ?thesis
      by simp
  qed
qed

subsection \<open>Slot reservation\<close>

text \<open>
  C4. On every handle returned by \<^verbatim>\<open>iouring_create\<close> for \<open>entries\<close> slots, after any
  sequence of calls that returned, \<^verbatim>\<open>iouring_get_sqe\<close> returns: its ring has depth
  \<open>entries\<close> and at most that many reserved slots, and the result is \<^verbatim>\<open>NULL\<close>
  (QueueFull) exactly when all slots of the ring are reserved and not yet handed to the
  kernel; otherwise it is a slot of the ring, which is then reserved.
\<close>

theorem get_sqe_full_iff_all_reserved:
  assumes "iouring_create (spec_extern arena) entries w0 = (Some a, w1)"
    and "run (spec_extern arena) calls w1 = Inr w"
  shows "\<exists>u sqe w'.
           ring_of w a = Some u \<and> depth u = unat entries \<and> reserved u \<le> depth u
         \<and> iouring_get_sqe (spec_extern arena) (Some a) w = Inr (sqe, w')
         \<and> (sqe = None) = (reserved u = depth u)
         \<and> (\<forall>i. sqe = Some i \<longrightarrow>
               i < depth u \<and> ring_of w' a = Some (u\<lparr>reserved := Suc (reserved u)\<rparr>))"
proof -
  from reachable_ring [OF assms] obtain u where u: "ring_of w a = Some u"
    and d: "depth u = unat entries" and b: "reserved u \<le> depth u"
    by blast
  from get_sqe_ring_of [OF u, of arena] obtain w' where
    g: "iouring_get_sqe (spec_extern arena) (Some a) w =
          Inr (if reserved u < depth u then Some (reserved u) else None, w')"
    and r: "ring_of w' a = Some (if reserved u < depth u then u\<lparr>reserved := Suc (reserved u)\<rparr> else u)"
    by blast
  show ?thesis
  proof (cases "reserved u < depth u")
    case True
    with u d b g r show ?thesis
      by simp
  next
    case False
    with b have "reserved u = depth u"
      by simp
    with u d g show ?thesis
      by simp
  qed
qed

theorem get_sqe_full_iff_all_reserved_witness:
  "iouring_create (spec_extern [1]) 1 (boot 1)
     = (Some 1, one_ring \<lparr>depth = 1, reserved = 0, inflight = 0, ready = 0\<rparr>)
   \<and> run (spec_extern [1]) [(Some 1, GetSqe)] (one_ring \<lparr>depth = 1, reserved = 0, inflight = 0, ready = 0\<rparr>)
     = Inr (one_ring \<lparr>depth = 1, reserved = 1, inflight = 0, ready = 0\<rparr>)
   \<and> ring_of (one_ring \<lparr>depth = 1, reserved = 1, inflight = 0, ready = 0\<rparr>) 1
     = Some \<lparr>depth = 1, reserved = 1, inflight = 0, ready = 0\<rparr>
   \<and> (\<exists>w'. iouring_get_sqe (spec_extern [1]) (Some 1) (one_ring \<lparr>depth = 1, reserved = 1, inflight = 0, ready = 0\<rparr>)
     = Inr (None, w'))"
proof -
  have c: "iouring_create (spec_extern [1]) 1 (boot 1)
     = (Some 1, one_ring \<lparr>depth = 1, reserved = 0, inflight = 0, ready = 0\<rparr>)"
    by (simp add: iouring_create_def spec_extern_def boot_def one_ring_def arena_malloc_def
        spec_queue_init_def)
  have r: "run (spec_extern [1]) [(Some 1, GetSqe)] (one_ring \<lparr>depth = 1, reserved = 0, inflight = 0, ready = 0\<rparr>)
     = Inr (one_ring \<lparr>depth = 1, reserved = 1, inflight = 0, ready = 0\<rparr>)"
    by (simp add: iouring_get_sqe_def spec_extern_def one_ring_def spec_get_sqe_def)
  have u: "ring_of (one_ring \<lparr>depth = 1, reserved = 1, inflight = 0, ready = 0\<rparr>) 1
     = Some \<lparr>depth = 1, reserved = 1, inflight = 0, ready = 0\<rparr>"
    by (simp add: ring_of_def one_ring_def)
  from get_sqe_full_iff_all_reserved [OF c r] u
  have "\<exists>w'. iouring_get_sqe (spec_extern [1]) (Some 1) (one_ring \<lparr>depth = 1, reserved = 1, inflight = 0, ready = 0\<rparr>)
     = Inr (None, w')"
    by auto
  with c r u show ?thesis
    by simp
qed

subsection \<open>Queue depth\<close>

text \<open>
  C7. The queue depth of a handle is the \<open>entries\<close> value it was created with, and it
  is the same after any sequence of slot reservations, publish-and-wait calls and
  completion markings on any handles; no such call changes the depth of any handle.
\<close>

theorem capacity_fixed_at_creation:
  assumes "iouring_create (spec_extern arena) entries w0 = (Some a, w1)"
    and "run (spec_extern arena) calls w1 = Inr w"
  shows "map_option depth (ring_of w1 a) = Some (unat entries)
       \<and> map_option depth (ring_of w a) = Some (unat entries)
       \<and> (\<forall>b. map_option depth (ring_of w b) = map_option depth (ring_of w1 b))"
proof -
  have "map_option depth (ring_of w b) = map_option depth (ring_of w1 b)" for b
    using run_ring_of [OF assms(2), of b]
    by (auto simp: ring_step_def split: option.splits)
  with create_ring_of [OF assms(1)] show ?thesis
    by simp
qed

theorem capacity_fixed_at_creation_witness:
  "iouring_create (spec_extern [1]) 2 (boot 1)
     = (Some 1, one_ring \<lparr>depth = 2, reserved = 0, inflight = 0, ready = 0\<rparr>)
   \<and> run (spec_extern [1]) [(Some 1, GetSqe), (Some 1, SubmitAndWait 1), (Some 1, CqeSeen (Some 0))]
        (one_ring \<lparr>depth = 2, reserved = 0, inflight = 0, ready = 0\<rparr>)
     = Inr (one_ring \<lparr>depth = 2, reserved = 0, inflight = 0, ready = 0\<rparr>)
   \<and> map_option depth (ring_of (one_ring \<lparr>depth = 2, reserved = 0, inflight = 0, ready = 0\<rparr>) 1) = Some 2"
proof -
  have c: "iouring_create (spec_extern [1]) 2 (boot 1)
     = (Some 1, one_ring \<lparr>depth = 2, reserved = 0, inflight = 0, ready = 0\<rparr>)"
    by (simp add: iouring_create_def spec_extern_def boot_def one_ring_def arena_malloc_def
        spec_queue_init_def)
  have r: "run (spec_extern [1]) [(Some 1, GetSqe), (Some 1, SubmitAndWait 1), (Some 1, CqeSeen (Some 0))]
        (one_ring \<lparr>depth = 2, reserved = 0, inflight = 0, ready = 0\<rparr>)
     = Inr (one_ring \<lparr>depth = 2, reserved = 0, inflight = 0, ready = 0\<rparr>)"
    by (simp add: iouring_get_sqe_def iouring_submit_and_wait_def iouring_cqe_seen_def
        spec_extern_def one_ring_def spec_get_sqe_def spec_submit_and_wait_def spec_cqe_seen_def)
  from capacity_fixed_at_creation [OF c r] c r show ?thesis
    by simp
qed

subsection \<open>Publishing\<close>

text \<open>
  C5. On a valid handle \<^verbatim>\<open>iouring_submit_and_wait\<close> hands every reserved slot to the
  kernel in the one call: when \<open>wait_nr\<close> completions can become ready it returns the
  number of slots it submitted, which is not negative, no slot is reserved any more,
  at least \<open>wait_nr\<close> completions are ready and no request is lost; when they cannot it
  blocks and does not return; and on a ring the kernel does not know it returns a
  negative error number and changes nothing.
\<close>

theorem submit_and_wait_flushes_reserved:
  assumes "heap w a = Some (Init hnd)"
  shows "(rings (kernel w) (ring_fd (ring hnd)) = None \<longrightarrow>
            iouring_submit_and_wait (spec_extern arena) (Some a) wait_nr w = Inr (- 9, w))
       \<and> (\<forall>u. rings (kernel w) (ring_fd (ring hnd)) = Some u \<longrightarrow>
            (if unat wait_nr \<le> ready u + inflight u + reserved u
             then \<exists>w' u'. iouring_submit_and_wait (spec_extern arena) (Some a) wait_nr w
                           = Inr (int (reserved u), w')
                        \<and> ring_of w' a = Some u'
                        \<and> reserved u' = 0
                        \<and> unat wait_nr \<le> ready u'
                        \<and> inflight u' + ready u' = inflight u + ready u + reserved u
                        \<and> depth u' = depth u
             else iouring_submit_and_wait (spec_extern arena) (Some a) wait_nr w = Inl NeverReturns))"
  using assms
  by (auto simp: submit_and_wait_spec [OF assms] spec_submit_and_wait_def ring_of_def Let_def)

theorem submit_and_wait_flushes_reserved_witness:
  "heap (one_ring \<lparr>depth = 2, reserved = 2, inflight = 0, ready = 0\<rparr>) 1 = Some (Init \<lparr>ring = \<lparr>ring_fd = 0\<rparr>\<rparr>)
   \<and> iouring_submit_and_wait (spec_extern [1]) (Some 1) 1 (one_ring \<lparr>depth = 2, reserved = 2, inflight = 0, ready = 0\<rparr>)
     = Inr (2, one_ring \<lparr>depth = 2, reserved = 0, inflight = 1, ready = 1\<rparr>)
   \<and> iouring_submit_and_wait (spec_extern [1]) (Some 1) 3 (one_ring \<lparr>depth = 2, reserved = 2, inflight = 0, ready = 0\<rparr>)
     = Inl NeverReturns
   \<and> iouring_submit_and_wait (spec_extern [1]) (Some 1) 0
        \<lparr>heap = [1 \<mapsto> Init \<lparr>ring = \<lparr>ring_fd = 0\<rparr>\<rparr>],
         kernel = \<lparr>rings = Map.empty, next_fd = 1, fd_limit = 1\<rparr>\<rparr>
     = Inr (- 9, \<lparr>heap = [1 \<mapsto> Init \<lparr>ring = \<lparr>ring_fd = 0\<rparr>\<rparr>],
                  kernel = \<lparr>rings = Map.empty, next_fd = 1, fd_limit = 1\<rparr>\<rparr>)"
proof -
  let ?W = "one_ring \<lparr>depth = 2, reserved = 2, inflight = 0, ready = 0\<rparr>"
  let ?D = "\<lparr>heap = [1 \<mapsto> Init \<lparr>ring = \<lparr>ring_fd = 0\<rparr>\<rparr>],
         kernel = \<lparr>rings = Map.empty, next_fd = 1, fd_limit = 1\<rparr>\<rparr>"
  have h: "heap ?W 1 = Some (Init \<lparr>ring = \<lparr>ring_fd = 0\<rparr>\<rparr>)"
    by (simp add: one_ring_def)
  have d: "heap ?D 1 = Some (Init \<lparr>ring = \<lparr>ring_fd = 0\<rparr>\<rparr>)"
    by simp
  have k: "rings (kernel ?W) (ring_fd (ring \<lparr>ring = \<lparr>ring_fd = 0\<rparr>\<rparr>))
      = Some \<lparr>depth = 2, reserved = 2, inflight = 0, ready = 0\<rparr>"
    by (simp add: one_ring_def)
  from submit_and_wait_flushes_reserved [OF h, of "[1]" 3] k
  have 1: "iouring_submit_and_wait (spec_extern [1]) (Some 1) 3 ?W = Inl NeverReturns"
    by simp
  from submit_and_wait_flushes_reserved [OF d, of "[1]" 0]
  have 2: "iouring_submit_and_wait (spec_extern [1]) (Some 1) 0 ?D = Inr (- 9, ?D)"
    by simp
  have 3: "iouring_submit_and_wait (spec_extern [1]) (Some 1) 1 ?W
      = Inr (2, one_ring \<lparr>depth = 2, reserved = 0, inflight = 1, ready = 1\<rparr>)"
    by (simp add: iouring_submit_and_wait_def spec_extern_def one_ring_def spec_submit_and_wait_def)
  from h 1 2 3 show ?thesis
    by simp
qed

subsection \<open>Backpressure\<close>

text \<open>
  C6 (as stated) fails. On a ring of depth 2: two reservations succeed and the third
  is refused; the two are published and one completion is awaited and marked
  consumed; then two further reservations succeed, not exactly one. They are
  published with no completion drained, so three requests are outstanding on a ring
  of depth 2, and the next reservation succeeds all the same: no QueueFull past the
  second outstanding request.
\<close>

theorem queue_full_outstanding_counterexample:
  "iouring_create (spec_extern [1]) 2 (boot 1)
     = (Some 1, one_ring \<lparr>depth = 2, reserved = 0, inflight = 0, ready = 0\<rparr>)
   \<and> get_sqes (spec_extern [1]) (Some 1) 3 (one_ring \<lparr>depth = 2, reserved = 0, inflight = 0, ready = 0\<rparr>)
     = Inr ([Some 0, Some 1, None], one_ring \<lparr>depth = 2, reserved = 2, inflight = 0, ready = 0\<rparr>)
   \<and> iouring_submit_and_wait (spec_extern [1]) (Some 1) 1 (one_ring \<lparr>depth = 2, reserved = 2, inflight = 0, ready = 0\<rparr>)
     = Inr (2, one_ring \<lparr>depth = 2, reserved = 0, inflight = 1, ready = 1\<rparr>)
   \<and> iouring_cqe_seen (spec_extern [1]) (Some 1) (Some 0) (one_ring \<lparr>depth = 2, reserved = 0, inflight = 1, ready = 1\<rparr>)
     = Inr (one_ring \<lparr>depth = 2, reserved = 0, inflight = 1, ready = 0\<rparr>)
   \<and> get_sqes (spec_extern [1]) (Some 1) 3 (one_ring \<lparr>depth = 2, reserved = 0, inflight = 1, ready = 0\<rparr>)
     = Inr ([Some 0, Some 1, None], one_ring \<lparr>depth = 2, reserved = 2, inflight = 1, ready = 0\<rparr>)
   \<and> iouring_submit_and_wait (spec_extern [1]) (Some 1) 0 (one_ring \<lparr>depth = 2, reserved = 2, inflight = 1, ready = 0\<rparr>)
     = Inr (2, one_ring \<lparr>depth = 2, reserved = 0, inflight = 3, ready = 0\<rparr>)
   \<and> iouring_get_sqe (spec_extern [1]) (Some 1) (one_ring \<lparr>depth = 2, reserved = 0, inflight = 3, ready = 0\<rparr>)
     = Inr (Some 0, one_ring \<lparr>depth = 2, reserved = 1, inflight = 3, ready = 0\<rparr>)"
proof -
  have c: "iouring_create (spec_extern [1]) 2 (boot 1)
     = (Some 1, one_ring \<lparr>depth = 2, reserved = 0, inflight = 0, ready = 0\<rparr>)"
    by (simp add: iouring_create_def spec_extern_def boot_def one_ring_def arena_malloc_def
        spec_queue_init_def)
  have g: "get_sqes (spec_extern [1]) (Some 1) 3 (one_ring \<lparr>depth = 2, reserved = 0, inflight = i, ready = 0\<rparr>)
     = Inr ([Some 0, Some 1, None], one_ring \<lparr>depth = 2, reserved = 2, inflight = i, ready = 0\<rparr>)" for i
    by (simp add: iouring_get_sqe_def spec_extern_def one_ring_def spec_get_sqe_def
        numeral_2_eq_2 numeral_3_eq_3)
  have s: "iouring_submit_and_wait (spec_extern [1]) (Some 1) 1 (one_ring \<lparr>depth = 2, reserved = 2, inflight = 0, ready = 0\<rparr>)
     = Inr (2, one_ring \<lparr>depth = 2, reserved = 0, inflight = 1, ready = 1\<rparr>)"
    by (simp add: iouring_submit_and_wait_def spec_extern_def one_ring_def spec_submit_and_wait_def)
  have d: "iouring_cqe_seen (spec_extern [1]) (Some 1) (Some 0) (one_ring \<lparr>depth = 2, reserved = 0, inflight = 1, ready = 1\<rparr>)
     = Inr (one_ring \<lparr>depth = 2, reserved = 0, inflight = 1, ready = 0\<rparr>)"
    by (simp add: iouring_cqe_seen_def spec_extern_def one_ring_def spec_cqe_seen_def)
  have p: "iouring_submit_and_wait (spec_extern [1]) (Some 1) 0 (one_ring \<lparr>depth = 2, reserved = 2, inflight = 1, ready = 0\<rparr>)
     = Inr (2, one_ring \<lparr>depth = 2, reserved = 0, inflight = 3, ready = 0\<rparr>)"
    by (simp add: iouring_submit_and_wait_def spec_extern_def one_ring_def spec_submit_and_wait_def)
  have n: "iouring_get_sqe (spec_extern [1]) (Some 1) (one_ring \<lparr>depth = 2, reserved = 0, inflight = 3, ready = 0\<rparr>)
     = Inr (Some 0, one_ring \<lparr>depth = 2, reserved = 1, inflight = 3, ready = 0\<rparr>)"
    by (simp add: iouring_get_sqe_def spec_extern_def one_ring_def spec_get_sqe_def)
  from c g [of 0] s d g [of 1] p n show ?thesis
    by simp
qed

text \<open>
  C6 (amended). QueueFull counts the slots reserved and not yet published, not the
  outstanding requests. On a ring of depth \<open>N\<close> with \<open>r \<le> N\<close> slots reserved, of \<open>n\<close>
  reservations in a row the first \<open>N - r\<close> succeed (slots \<open>r\<close> to \<open>N - 1\<close>) and every
  later one yields \<^verbatim>\<open>NULL\<close>, however many requests are in flight or completions ready;
  marking a completion consumed leaves the number of reserved slots as it is, and a
  publish that returns leaves none reserved.
\<close>

theorem queue_full_counts_unpublished:
  assumes "ring_of w a = Some u" and "reserved u \<le> depth u"
  shows "(\<exists>w'. get_sqes (spec_extern arena) (Some a) n w =
                 Inr (map Some [reserved u ..< min (reserved u + n) (depth u)]
                        @ replicate (reserved u + n - depth u) None, w')
             \<and> ring_of w' a = Some (u\<lparr>reserved := min (reserved u + n) (depth u)\<rparr>))
       \<and> (\<exists>w'. iouring_cqe_seen (spec_extern arena) (Some a) cqe w = Inr w'
             \<and> map_option reserved (ring_of w' a) = Some (reserved u)
             \<and> map_option depth (ring_of w' a) = Some (depth u))
       \<and> (\<forall>rc w'. iouring_submit_and_wait (spec_extern arena) (Some a) wait_nr w = Inr (rc, w') \<longrightarrow>
             map_option reserved (ring_of w' a) = Some 0
             \<and> map_option depth (ring_of w' a) = Some (depth u))"
proof -
  from ring_ofD [OF assms(1)] obtain hnd where h: "heap w a = Some (Init hnd)"
    and r: "rings (kernel w) (ring_fd (ring hnd)) = Some u"
    by blast
  have c: "\<exists>w'. iouring_cqe_seen (spec_extern arena) (Some a) cqe w = Inr w'
             \<and> map_option reserved (ring_of w' a) = Some (reserved u)
             \<and> map_option depth (ring_of w' a) = Some (depth u)"
    using h r by (simp add: cqe_seen_spec [OF h] spec_cqe_seen_def ring_of_def split: option.splits)
  have s: "map_option reserved (ring_of w' a) = Some 0
             \<and> map_option depth (ring_of w' a) = Some (depth u)"
    if "iouring_submit_and_wait (spec_extern arena) (Some a) wait_nr w = Inr (rc, w')" for rc w'
    using that h r
    by (auto simp: submit_and_wait_spec [OF h] spec_submit_and_wait_def ring_of_def Let_def
        split: if_splits)
  from get_sqes_spec [OF assms, of arena n] c s show ?thesis
    by blast
qed

theorem queue_full_counts_unpublished_witness:
  "ring_of (one_ring \<lparr>depth = 2, reserved = 1, inflight = 3, ready = 1\<rparr>) 1
     = Some \<lparr>depth = 2, reserved = 1, inflight = 3, ready = 1\<rparr>
   \<and> (\<exists>w'. get_sqes (spec_extern [1]) (Some 1) 3 (one_ring \<lparr>depth = 2, reserved = 1, inflight = 3, ready = 1\<rparr>)
        = Inr ([Some 1, None, None], w')
        \<and> ring_of w' 1 = Some \<lparr>depth = 2, reserved = 2, inflight = 3, ready = 1\<rparr>)"
proof -
  let ?u = "\<lparr>depth = 2, reserved = 1, inflight = 3, ready = 1\<rparr>"
  have u: "ring_of (one_ring ?u) 1 = Some ?u"
    by (simp add: ring_of_def one_ring_def)
  have b: "reserved ?u \<le> depth ?u"
    by simp
  have l: "map Some [reserved ?u ..< min (reserved ?u + 3) (depth ?u)]
             @ replicate (reserved ?u + 3 - depth ?u) None = [Some 1, None, None]"
    by (simp add: numeral_2_eq_2 numeral_3_eq_3)
  from queue_full_counts_unpublished [OF u b, of "[1]" 3] l u show ?thesis
    by (auto simp: )
qed

end
